theory Spec2Isabelle
  imports Complex_Main "HOL-Library.Word" "HOL-Library.Sublist"
begin

section \<open>The chat backend of Donna (Donna-Backend/index.js)\<close>

text \<open>
  The backend is one Express handler, \<^verbatim>\<open>app.post("/chat")\<close>, with four helpers:
  \<^verbatim>\<open>execCommand\<close>, \<^verbatim>\<open>lipSyncMessage\<close>, \<^verbatim>\<open>readJsonTranscript\<close> and
  \<^verbatim>\<open>audioFileToBase64\<close>. The handler asks a chat-completion service for a reply, parses the
  reply as JSON, unwraps a \<^verbatim>\<open>messages\<close> field when there is one, and then, for each index of
  the result, synthesizes speech, transcodes it, extracts mouth cues and attaches the audio
  and the cues to the element. The embedding below follows the handler statement by
  statement. Values are the values \<^verbatim>\<open>JSON.parse\<close> can return; every \<^verbatim>\<open>await\<close> is a
  sequential step on an explicit state (the scratch files and a log of the calls made to
  the collaborators); a rejected promise or a thrown exception is the \<open>Inl\<close> branch of a sum.
\<close>

subsection \<open>Values\<close>

text \<open>
  A number of the runtime: a finite value (taken as the rational it denotes), an infinity,
  or NaN.
\<close>

datatype jsnum = NaN | Num rat | PosInf | NegInf

text \<open>
  What \<^verbatim>\<open>JSON.parse\<close> returns: null, booleans, numbers, strings, arrays and plain objects
  (own string keys, in the order the runtime enumerates them). A literal too large for a
  double, such as \<^verbatim>\<open>1e400\<close>, parses to an infinity. A string is the list of its code units.
\<close>

datatype json =
    JNull
  | JBool bool
  | JNum jsnum
  | JStr string
  | JArr "json list"
  | JObj "(string \<times> json) list"

text \<open>What a thrown exception or a rejected promise carries.\<close>

datatype error =
    TypeError
  | SyntaxError
  | ENOENT string
  | Failure string
  | Unsettled

type_synonym byte = "8 word"

subsection \<open>Template literals: \<^verbatim>\<open>${i}\<close> for a loop index\<close>

definition digit_char :: "nat \<Rightarrow> char" where
  "digit_char d = ''0123456789'' ! d"

definition digit_val :: "char \<Rightarrow> nat" where
  "digit_val c = of_char c - 48"

fun show_nat :: "nat \<Rightarrow> string" where
  "show_nat n = (if n < 10 then [digit_char n] else show_nat (n div 10) @ [digit_char (n mod 10)])"

declare show_nat.simps [simp del]

definition read_nat :: "string \<Rightarrow> nat" where
  "read_nat s = foldl (\<lambda>a c. 10 * a + digit_val c) 0 s"

text \<open>A property key is an array index when it is the decimal rendering of a number.\<close>

definition array_index :: "string \<Rightarrow> nat option" where
  "array_index k = (if show_nat (read_nat k) = k then Some (read_nat k) else None)"

subsection \<open>Property reads and writes\<close>

text \<open>
  \<^verbatim>\<open>v.k\<close> and \<^verbatim>\<open>v[i]\<close>. Reading a property of \<^verbatim>\<open>null\<close> throws; on any other value the
  read finds an own property or falls through to \<^verbatim>\<open>undefined\<close> (\<open>None\<close>): the handler
  reads \<^verbatim>\<open>messages\<close>, \<^verbatim>\<open>length\<close>, \<^verbatim>\<open>text\<close> and indices only, and no prototype defines
  one of these apart from the \<^verbatim>\<open>length\<close> of arrays and strings.
\<close>

fun get_member :: "json \<Rightarrow> string \<Rightarrow> error + json option" where
  "get_member JNull k = Inl TypeError"
| "get_member (JBool b) k = Inr None"
| "get_member (JNum r) k = Inr None"
| "get_member (JStr s) k =
     (if k = ''length'' then Inr (Some (JNum (Num (of_nat (length s)))))
      else case array_index k of
             Some i \<Rightarrow> Inr (if i < length s then Some (JStr [s ! i]) else None)
           | None \<Rightarrow> Inr None)"
| "get_member (JArr xs) k =
     (if k = ''length'' then Inr (Some (JNum (Num (of_nat (length xs)))))
      else case array_index k of
             Some i \<Rightarrow> Inr (if i < length xs then Some (xs ! i) else None)
           | None \<Rightarrow> Inr None)"
| "get_member (JObj kvs) k = Inr (map_of kvs k)"

text \<open>\<^verbatim>\<open>v.k\<close> where \<^verbatim>\<open>v\<close> may be \<^verbatim>\<open>undefined\<close>: that read throws as well.\<close>

fun get_member_opt :: "json option \<Rightarrow> string \<Rightarrow> error + json option" where
  "get_member_opt None k = Inl TypeError"
| "get_member_opt (Some v) k = get_member v k"

text \<open>An own property of a plain object: replaced in place, or appended.\<close>

fun put_own :: "(string \<times> json) list \<Rightarrow> string \<Rightarrow> json \<Rightarrow> (string \<times> json) list" where
  "put_own [] k v = [(k, v)]"
| "put_own ((k', v') # kvs) k v =
     (if k' = k then (k, v) # kvs else (k', v') # put_own kvs k v)"

text \<open>
  \<^verbatim>\<open>m.k = v\<close> for the keys \<^verbatim>\<open>audio\<close> and \<^verbatim>\<open>lipsync\<close>. The file is an ES module, hence
  strict: the assignment throws on a primitive. On an array it adds a property that is not
  an index, which \<^verbatim>\<open>res.send\<close> does not serialise and nothing reads: the array is as before.
\<close>

fun set_member :: "json \<Rightarrow> string \<Rightarrow> json \<Rightarrow> error + json" where
  "set_member (JObj kvs) k v = Inr (JObj (put_own kvs k v))"
| "set_member (JArr xs) k v = Inr (JArr xs)"
| "set_member _ k v = Inl TypeError"

text \<open>The element at index \<open>i\<close> of the batch replaced by its enriched version (the source
  mutates the element in place; the batch is a tree, so no other place sees the element).\<close>

fun put_element :: "json \<Rightarrow> nat \<Rightarrow> json \<Rightarrow> json" where
  "put_element (JArr xs) i v = JArr (xs[i := v])"
| "put_element (JObj kvs) i v = JObj (put_own kvs (show_nat i) v)"
| "put_element m i v = m"

text \<open>Truthiness, as \<^verbatim>\<open>if (x)\<close> and \<^verbatim>\<open>x || y\<close> test it.\<close>

fun truthy :: "json option \<Rightarrow> bool" where
  "truthy None = False"
| "truthy (Some JNull) = False"
| "truthy (Some (JBool b)) = b"
| "truthy (Some (JNum n)) = (n \<noteq> Num 0 \<and> n \<noteq> NaN)"
| "truthy (Some (JStr s)) = (s \<noteq> [])"
| "truthy (Some (JArr xs)) = True"
| "truthy (Some (JObj kvs)) = True"

subsection \<open>Base64, as \<^verbatim>\<open>Buffer.toString("base64")\<close> writes it\<close>

text \<open>
  The codec is the runtime's and not in the repository. The alphabet and the padding
  character are those of RFC 4648.
\<close>

definition b64_alphabet :: string where
  "b64_alphabet = ''ABCDEFGHIJKLMNOPQRSTUVWXYZabcdefghijklmnopqrstuvwxyz0123456789+/''"

definition b64_pad :: char where
  "b64_pad = CHR ''=''"

definition b64_char :: "nat \<Rightarrow> char" where
  "b64_char n = b64_alphabet ! n"

definition b64_val :: "char \<Rightarrow> nat option" where
  "b64_val c = map_of (zip b64_alphabet [0..<64]) c"

text \<open>The four sextets of a group of three bytes, and the three bytes of four sextets.\<close>

definition sextet1 :: "byte \<Rightarrow> nat" where
  "sextet1 a = unat a div 4"

definition sextet2 :: "byte \<Rightarrow> byte \<Rightarrow> nat" where
  "sextet2 a b = (unat a mod 4) * 16 + unat b div 16"

definition sextet3 :: "byte \<Rightarrow> byte \<Rightarrow> nat" where
  "sextet3 b c = (unat b mod 16) * 4 + unat c div 64"

definition sextet4 :: "byte \<Rightarrow> nat" where
  "sextet4 c = unat c mod 64"

definition octet1 :: "nat \<Rightarrow> nat \<Rightarrow> byte" where
  "octet1 p q = of_nat (p * 4 + q div 16)"

definition octet2 :: "nat \<Rightarrow> nat \<Rightarrow> byte" where
  "octet2 q r = of_nat ((q mod 16) * 16 + r div 4)"

definition octet3 :: "nat \<Rightarrow> nat \<Rightarrow> byte" where
  "octet3 r s = of_nat ((r mod 4) * 64 + s)"

text \<open>
  Modelled from the spec: the transport encoding of the audio bytes (base64), that is
  \<^verbatim>\<open>data.toString("base64")\<close> of \<^verbatim>\<open>audioFileToBase64\<close>, whose code is the runtime's.
  The encoder of RFC 4648: three bytes to four characters, \<^verbatim>\<open>=\<close> padding.
\<close>

fun base64_encode :: "byte list \<Rightarrow> string" where
  "base64_encode [] = []"
| "base64_encode [a] =
     [b64_char (sextet1 a), b64_char (sextet2 a 0), b64_pad, b64_pad]"
| "base64_encode [a, b] =
     [b64_char (sextet1 a), b64_char (sextet2 a b), b64_char (sextet3 b 0), b64_pad]"
| "base64_encode (a # b # c # rest) =
     [b64_char (sextet1 a), b64_char (sextet2 a b), b64_char (sextet3 b c),
      b64_char (sextet4 c)] @ base64_encode rest"

text \<open>
  Modelled from the spec: the decoding of the transport form, which the repository leaves to
  the caller. The decoder of RFC 4648: four characters to three bytes, the last group padded.
\<close>

fun base64_decode :: "string \<Rightarrow> byte list option" where
  "base64_decode [] = Some []"
| "base64_decode (w # x # y # z # rest) =
     (if rest = [] \<and> y = b64_pad \<and> z = b64_pad then
        (case (b64_val w, b64_val x) of
           (Some p, Some q) \<Rightarrow> Some [octet1 p q]
         | _ \<Rightarrow> None)
      else if rest = [] \<and> z = b64_pad then
        (case (b64_val w, b64_val x, b64_val y) of
           (Some p, Some q, Some r) \<Rightarrow> Some [octet1 p q, octet2 q r]
         | _ \<Rightarrow> None)
      else
        (case (b64_val w, b64_val x, b64_val y, b64_val z) of
           (Some p, Some q, Some r, Some s) \<Rightarrow>
             (case base64_decode rest of
                Some bs \<Rightarrow> Some (octet1 p q # octet2 q r # octet3 r s # bs)
              | None \<Rightarrow> None)
         | _ \<Rightarrow> None))"
| "base64_decode _ = None"

subsection \<open>State, collaborators and the log of their calls\<close>

text \<open>
  The calls that leave the process: the chat completion (with the user content), the speech
  synthesis (with the file name and the text) and a shell command (with the command line).
  The log is not in the source. It is what a mock collaborator records: each call is entered
  by the one function that hands its arguments to the collaborator, with those arguments,
  when it starts and when it settles.
\<close>

datatype call =
    Complete json
  | Speak string "json option"
  | Exec string

datatype event = Started call | Settled call bool

type_synonym files = "string \<Rightarrow> byte list option"

record state =
  files :: files
  calls :: "event list"

text \<open>
  What the repository does not contain: the chat-completion client (\<^verbatim>\<open>openai\<close>), the speech
  synthesizer (\<^verbatim>\<open>elevenlabs-node\<close>), the shell (\<^verbatim>\<open>child_process.exec\<close>, which reports an
  error or none, and the standard output), the API key of the process environment, and three
  operations of the runtime: \<^verbatim>\<open>JSON.parse\<close>, the UTF-8 decoding of \<^verbatim>\<open>fs.readFile\<close>, and
  \<^verbatim>\<open>ToNumber\<close> on strings, arrays and objects. They are parameters of the model. The
  synthesizer and the shell act on the files and leave them as they are when their promise
  settles.
\<close>

record env =
  api_key :: "string option"
  chat_completion :: "json \<Rightarrow> error + string"
  text_to_speech :: "string option \<Rightarrow> string \<Rightarrow> string \<Rightarrow> json option \<Rightarrow> files \<Rightarrow> files \<times> (error + unit)"
  shell :: "string \<Rightarrow> files \<Rightarrow> files \<times> error option \<times> string"
  json_parse :: "string \<Rightarrow> error + json"
  utf8 :: "byte list \<Rightarrow> string"
  to_number_rt :: "json \<Rightarrow> error + jsnum"

type_synonym 'a action = "state \<Rightarrow> state \<times> (error + 'a)"

definition resolved :: "'a \<Rightarrow> 'a action" where
  "resolved x st = (st, Inr x)"

definition lift :: "error + 'a \<Rightarrow> 'a action" where
  "lift r st = (st, r)"

text \<open>
  Sequencing, as \<^verbatim>\<open>await\<close> gives it: what follows runs only when what precedes has settled,
  in the state it has left, and not at all when it has thrown.
\<close>

definition and_then :: "'a action \<Rightarrow> ('a \<Rightarrow> 'b action) \<Rightarrow> 'b action" where
  "and_then m f st =
     (case m st of
        (st', Inl e) \<Rightarrow> (st', Inl e)
      | (st', Inr x) \<Rightarrow> f x st')"

definition is_ok :: "error + 'a \<Rightarrow> bool" where
  "is_ok r = (case r of Inl e \<Rightarrow> False | Inr x \<Rightarrow> True)"

text \<open>The collaborator called with \<open>c\<close> has left the files \<open>fs\<close> and its promise has settled
  with \<open>r\<close>.\<close>

definition settle :: "call \<Rightarrow> files \<Rightarrow> error + 'a \<Rightarrow> 'a action" where
  "settle c fs r st =
     (st\<lparr>files := fs, calls := calls st @ [Started c, Settled c (is_ok r)]\<rparr>, r)"

subsection \<open>Promises and \<^verbatim>\<open>execCommand\<close>\<close>

text \<open>A promise settles once: a later \<^verbatim>\<open>resolve\<close> or \<^verbatim>\<open>reject\<close> changes nothing.\<close>

datatype 'a promise = Pending | Fulfilled 'a | Rejected error

definition reject :: "error \<Rightarrow> 'a promise \<Rightarrow> 'a promise" where
  "reject e p = (case p of Pending \<Rightarrow> Rejected e | _ \<Rightarrow> p)"

definition resolve :: "'a \<Rightarrow> 'a promise \<Rightarrow> 'a promise" where
  "resolve v p = (case p of Pending \<Rightarrow> Fulfilled v | _ \<Rightarrow> p)"

text \<open>Awaiting a promise that never settles suspends the handler for good.\<close>

definition settled :: "'a promise \<Rightarrow> error + 'a" where
  "settled p = (case p of Pending \<Rightarrow> Inl Unsettled | Fulfilled v \<Rightarrow> Inr v | Rejected e \<Rightarrow> Inl e)"

text \<open>
  \<^verbatim>\<open>
  const execCommand = (command) => {
    return new Promise((resolve, reject) => {
      exec(command, (error, stdout, stderr) => {
        if (error) reject(error);
        resolve(stdout);
      });
    });
  };
  \<close>
\<close>

definition execCommand :: "env \<Rightarrow> string \<Rightarrow> string action" where
  "execCommand env command st =
     (case shell env command (files st) of
        (fs, error, stdout) \<Rightarrow>
          settle (Exec command) fs
            (settled (resolve stdout
               (case error of Some e \<Rightarrow> reject e Pending | None \<Rightarrow> Pending))) st)"

subsection \<open>\<^verbatim>\<open>lipSyncMessage\<close>\<close>

definition backslash :: char where
  "backslash = char_of (92 :: nat)"

definition mp3_file :: "nat \<Rightarrow> string" where
  "mp3_file i = ''audios/message_'' @ show_nat i @ ''.mp3''"

definition wav_file :: "nat \<Rightarrow> string" where
  "wav_file i = ''audios/message_'' @ show_nat i @ ''.wav''"

definition json_file :: "nat \<Rightarrow> string" where
  "json_file i = ''audios/message_'' @ show_nat i @ ''.json''"

definition ffmpeg_command :: "nat \<Rightarrow> string" where
  "ffmpeg_command i = ''ffmpeg -y -i '' @ mp3_file i @ '' '' @ wav_file i"

definition rhubarb_command :: "nat \<Rightarrow> string" where
  "rhubarb_command i =
     ''bin'' @ [backslash] @ ''rhubarb -f json -o '' @ json_file i @ '' '' @ wav_file i
     @ '' -r phonetic''"

text \<open>The two commands, one after the other (the timing lines of the console are left out).\<close>

definition lipSyncMessage :: "env \<Rightarrow> nat \<Rightarrow> unit action" where
  "lipSyncMessage env message =
     and_then (execCommand env (ffmpeg_command message))
       (\<lambda>_. and_then (execCommand env (rhubarb_command message))
          (\<lambda>_. resolved ()))"

subsection \<open>\<^verbatim>\<open>readJsonTranscript\<close> and \<^verbatim>\<open>audioFileToBase64\<close>\<close>

definition readFile :: "string \<Rightarrow> (byte list) action" where
  "readFile file st =
     (case files st file of None \<Rightarrow> (st, Inl (ENOENT file)) | Some data \<Rightarrow> (st, Inr data))"

definition readJsonTranscript :: "env \<Rightarrow> string \<Rightarrow> json action" where
  "readJsonTranscript env file =
     and_then (readFile file) (\<lambda>data. lift (json_parse env (utf8 env data)))"

definition audioFileToBase64 :: "string \<Rightarrow> string action" where
  "audioFileToBase64 file =
     and_then (readFile file) (\<lambda>data. resolved (base64_encode data))"

subsection \<open>The handler of \<^verbatim>\<open>POST /chat\<close>\<close>

definition voiceID :: string where
  "voiceID = ''EXAVITQu4vr4xnSDxMaL''"

text \<open>\<^verbatim>\<open>voice.textToSpeech(elevenLabsApiKey, voiceID, fileName, textInput)\<close>.\<close>

definition textToSpeech :: "env \<Rightarrow> string \<Rightarrow> json option \<Rightarrow> unit action" where
  "textToSpeech env fileName textInput st =
     (case text_to_speech env (api_key env) voiceID fileName textInput (files st) of
        (fs, r) \<Rightarrow> settle (Speak fileName textInput) fs r st)"

text \<open>\<^verbatim>\<open>openai.chat.completions.create({ ..., messages: [system, { role: "user", content }] })\<close>
  and the content of its first choice. The model, the limits and the system prompt are fixed.\<close>

definition createCompletion :: "env \<Rightarrow> json \<Rightarrow> string action" where
  "createCompletion env content st =
     settle (Complete content) (files st) (chat_completion env content) st"

text \<open>
  \<^verbatim>\<open>i < messages.length\<close>. The right operand is converted with \<^verbatim>\<open>ToNumber\<close>:
  \<^verbatim>\<open>undefined\<close> is NaN, and no number is below NaN.
\<close>

fun to_number :: "env \<Rightarrow> json option \<Rightarrow> error + jsnum" where
  "to_number env None = Inr NaN"
| "to_number env (Some JNull) = Inr (Num 0)"
| "to_number env (Some (JBool b)) = Inr (Num (if b then 1 else 0))"
| "to_number env (Some (JNum n)) = Inr n"
| "to_number env (Some v) = to_number_rt env v"

fun js_less :: "nat \<Rightarrow> jsnum \<Rightarrow> bool" where
  "js_less i NaN = False"
| "js_less i (Num r) = (of_nat i < r)"
| "js_less i PosInf = True"
| "js_less i NegInf = False"

definition loop_test :: "env \<Rightarrow> json \<Rightarrow> nat \<Rightarrow> error + bool" where
  "loop_test env messages i =
     (case get_member messages ''length'' of
        Inl e \<Rightarrow> Inl e
      | Inr len \<Rightarrow>
          (case to_number env len of
             Inl e \<Rightarrow> Inl e
           | Inr n \<Rightarrow> Inr (js_less i n)))"

text \<open>\<^verbatim>\<open>message.k = v\<close> on the element read at the top of the loop body.\<close>

fun set_member_opt :: "json option \<Rightarrow> string \<Rightarrow> json \<Rightarrow> error + json" where
  "set_member_opt None k v = Inl TypeError"
| "set_member_opt (Some m) k v = set_member m k v"

text \<open>
  The body of the loop, lines 95 to 104:
  \<^verbatim>\<open>
    const message = messages[i];
    const fileName = `audios/message_${i}.mp3`;
    const textInput = message.text;
    await voice.textToSpeech(elevenLabsApiKey, voiceID, fileName, textInput);
    await lipSyncMessage(i);
    message.audio = await audioFileToBase64(fileName);
    message.lipsync = await readJsonTranscript(`audios/message_${i}.json`);
  \<close>
  The result is the batch with the element at \<open>i\<close> as the two assignments leave it.
\<close>

definition loop_body :: "env \<Rightarrow> json \<Rightarrow> nat \<Rightarrow> json action" where
  "loop_body env messages i =
     and_then (lift (get_member messages (show_nat i))) (\<lambda>message.
     and_then (lift (get_member_opt message ''text'')) (\<lambda>textInput.
     and_then (textToSpeech env (mp3_file i) textInput) (\<lambda>_.
     and_then (lipSyncMessage env i) (\<lambda>_.
     and_then (audioFileToBase64 (mp3_file i)) (\<lambda>audio.
     and_then (lift (set_member_opt message ''audio'' (JStr audio))) (\<lambda>message1.
     and_then (readJsonTranscript env (json_file i)) (\<lambda>lipsync.
     and_then (lift (set_member message1 ''lipsync'' lipsync)) (\<lambda>message2.
     resolved (put_element messages i message2)))))))))"

text \<open>\<^verbatim>\<open>for (let i = 0; i < messages.length; i++) { ... }\<close>, from index \<open>i\<close> on.\<close>

function chat_loop :: "env \<Rightarrow> json \<Rightarrow> nat \<Rightarrow> json action" where
  "chat_loop env messages i st =
     (case loop_test env messages i of
        Inl e \<Rightarrow> (st, Inl e)
      | Inr False \<Rightarrow> (st, Inr messages)
      | Inr True \<Rightarrow>
          (case loop_body env messages i st of
             (st', Inl e) \<Rightarrow> (st', Inl e)
           | (st', Inr messages') \<Rightarrow> chat_loop env messages' (Suc i) st'))"
  by pat_completeness auto

text \<open>
  Lines 88 to 91:
  \<^verbatim>\<open>
    let messages = JSON.parse(completion.choices[0].message.content);
    if (messages.messages) {
      messages = messages.messages;
    }
  \<close>
\<close>

definition unwrap :: "json \<Rightarrow> error + json" where
  "unwrap parsed =
     (case get_member parsed ''messages'' of
        Inl e \<Rightarrow> Inl e
      | Inr field \<Rightarrow> Inr (if truthy field then the field else parsed))"

definition turn_normalizer :: "env \<Rightarrow> string \<Rightarrow> error + json" where
  "turn_normalizer env content =
     (case json_parse env content of
        Inl e \<Rightarrow> Inl e
      | Inr parsed \<Rightarrow> unwrap parsed)"

text \<open>\<^verbatim>\<open>userMessage || "Hello"\<close>, the content of the user message of the completion request.\<close>

definition user_content :: "json option \<Rightarrow> json" where
  "user_content userMessage = (if truthy userMessage then the userMessage else JStr ''Hello'')"

text \<open>
  \<^verbatim>\<open>res.send({ messages })\<close> writes the object with \<^verbatim>\<open>JSON.stringify\<close>. The body is
  taken as the value the caller reads back from that text: a number that is not finite is
  written \<^verbatim>\<open>null\<close>, everything else is written as it is.
\<close>

fun wire :: "json \<Rightarrow> json" where
  "wire JNull = JNull"
| "wire (JBool b) = JBool b"
| "wire (JNum (Num r)) = JNum (Num r)"
| "wire (JNum n) = JNull"
| "wire (JStr s) = JStr s"
| "wire (JArr xs) = JArr (map wire xs)"
| "wire (JObj kvs) = JObj (map (\<lambda>kv. (fst kv, wire (snd kv))) kvs)"

definition response :: "json \<Rightarrow> json" where
  "response messages = wire (JObj [(''messages'', messages)])"

text \<open>
  The handler, on the parsed body of the request. \<open>Inr\<close> is the body of the response sent;
  \<open>Inl\<close> is the exception the handler ends with, and then nothing is sent.
\<close>

definition chat :: "env \<Rightarrow> json \<Rightarrow> json action" where
  "chat env body =
     and_then (lift (get_member body ''message'')) (\<lambda>userMessage.
     and_then (createCompletion env (user_content userMessage)) (\<lambda>content.
     and_then (lift (turn_normalizer env content)) (\<lambda>messages.
     and_then (chat_loop env messages 0) (\<lambda>messages'.
     resolved (response messages')))))"

section \<open>What the claims speak about\<close>

subsection \<open>The loop seen from one element\<close>

text \<open>
  The body of the loop with the element already read: everything the handler does to
  \<^verbatim>\<open>messages[i]\<close>. Over an array the loop is this, element after element.
\<close>

definition enrich_turn :: "env \<Rightarrow> nat \<Rightarrow> json option \<Rightarrow> json action" where
  "enrich_turn env i message =
     and_then (lift (get_member_opt message ''text'')) (\<lambda>textInput.
     and_then (textToSpeech env (mp3_file i) textInput) (\<lambda>_.
     and_then (lipSyncMessage env i) (\<lambda>_.
     and_then (audioFileToBase64 (mp3_file i)) (\<lambda>audio.
     and_then (lift (set_member_opt message ''audio'' (JStr audio))) (\<lambda>message1.
     and_then (readJsonTranscript env (json_file i)) (\<lambda>lipsync.
     lift (set_member message1 ''lipsync'' lipsync)))))))"

fun enrich_from :: "env \<Rightarrow> nat \<Rightarrow> json list \<Rightarrow> (json list) action" where
  "enrich_from env i [] = resolved []"
| "enrich_from env i (t # ts) =
     and_then (enrich_turn env i (Some t)) (\<lambda>t'.
     and_then (enrich_from env (Suc i) ts) (\<lambda>ts'. resolved (t' # ts')))"

text \<open>The array put together again: the elements already visited and the result of the rest.\<close>

definition rebuilt :: "json list \<Rightarrow> state \<times> (error + json list) \<Rightarrow> state \<times> (error + json)" where
  "rebuilt done r = (case r of (st', Inl e) \<Rightarrow> (st', Inl e) | (st', Inr ys) \<Rightarrow> (st', Inr (JArr (done @ ys))))"

text \<open>An element after its two assignments, for some audio and some cues.\<close>

definition enriched :: "json \<Rightarrow> json \<Rightarrow> bool" where
  "enriched t t' \<longleftrightarrow>
     (\<exists>audio lipsync m1. set_member t ''audio'' (JStr audio) = Inr m1
        \<and> set_member m1 ''lipsync'' lipsync = Inr t')"

text \<open>The state when the completion has answered.\<close>

definition after_completion :: "json option \<Rightarrow> state \<Rightarrow> state" where
  "after_completion userMessage st =
     st\<lparr>calls := calls st @ [Started (Complete (user_content userMessage)),
                               Settled (Complete (user_content userMessage)) True]\<rparr>"

subsection \<open>The sequential schedule\<close>











subsection \<open>Failed calls\<close>




subsection \<open>Replies that are no batch\<close>

text \<open>
  A value with no \<^verbatim>\<open>length\<close>: a boolean, a number, or an object without such a field.
  The loop test \<^verbatim>\<open>0 < undefined\<close> is false on it.
\<close>

fun shapeless :: "json \<Rightarrow> bool" where
  "shapeless (JBool b) = True"
| "shapeless (JNum n) = True"
| "shapeless (JObj kvs) = (map_of kvs ''length'' = None)"
| "shapeless v = False"

subsection \<open>Turns without expression and animation\<close>

text \<open>A turn with its \<^verbatim>\<open>facialExpression\<close> and its \<^verbatim>\<open>animation\<close> taken away, and a batch
  with every turn so.\<close>

definition plain_key :: "string \<Rightarrow> bool" where
  "plain_key k \<longleftrightarrow> k \<noteq> ''facialExpression'' \<and> k \<noteq> ''animation''"

fun strip :: "json \<Rightarrow> json" where
  "strip (JObj kvs) = JObj (filter (\<lambda>kv. plain_key (fst kv)) kvs)"
| "strip v = v"

fun strip_turns :: "json \<Rightarrow> json" where
  "strip_turns (JArr ts) = JArr (map strip ts)"
| "strip_turns v = v"

text \<open>The outcome of a run, with a function applied to the result.\<close>

definition mapped :: "('a \<Rightarrow> 'b) \<Rightarrow> state \<times> (error + 'a) \<Rightarrow> state \<times> (error + 'b)" where
  "mapped g p = (case p of (st', r) \<Rightarrow> (st', map_sum id g r))"

subsection \<open>The measure of the loop\<close>

definition loop_measure :: "json \<Rightarrow> nat \<Rightarrow> nat" where
  "loop_measure messages i =
     (case messages of
        JArr xs \<Rightarrow> length xs - i
      | JObj kvs \<Rightarrow> card {j. i \<le> j \<and> show_nat j \<in> fst ` set kvs}
      | _ \<Rightarrow> 0)"

subsection \<open>Test doubles\<close>

text \<open>
  The enumerations the system prompt of the completion request names (lines 78 and 79).
\<close>

definition facial_expressions :: "string list" where
  "facial_expressions = [''smile'', ''sad'', ''angry'', ''surprised'', ''funnyFace'', ''default'']"

definition animations :: "string list" where
  "animations = [''Talking_0'', ''Talking_1'', ''Talking_2'', ''Crying'', ''Laughing'', ''Rumba'',
                 ''Idle'', ''Terrified'', ''Angry'']"

text \<open>
  Collaborators that always succeed: the completion answers with a text that parses to
  \<open>reply\<close>, the synthesizer writes three bytes, a shell command leaves a transcript
  \<^verbatim>\<open>{}\<close> in every file that did not exist.
\<close>

definition studio :: "json \<Rightarrow> env" where
  "studio reply =
     \<lparr>api_key = Some ''key'',
      chat_completion = (\<lambda>content. Inr ''reply''),
      text_to_speech = (\<lambda>key voice file text fs. (fs(file := Some [73, 68, 51]), Inr ())),
      shell = (\<lambda>command fs.
         ((\<lambda>p. case fs p of None \<Rightarrow> Some [123, 125] | Some d \<Rightarrow> Some d), None, [])),
      json_parse = (\<lambda>s. if s = ''{}'' then Inr (JObj []) else Inr reply),
      utf8 = (\<lambda>bs. if bs = [123, 125] then ''{}'' else ''?''),
      to_number_rt = (\<lambda>v. Inr NaN)\<rparr>"




definition fresh :: state where
  "fresh = \<lparr>files = (\<lambda>p. None), calls = []\<rparr>"

definition hello_request :: json where
  "hello_request = JObj [(''message'', JStr ''hi'')]"

definition turn :: "string \<Rightarrow> string \<Rightarrow> string \<Rightarrow> json" where
  "turn t f a = JObj [(''text'', JStr t), (''facialExpression'', JStr f), (''animation'', JStr a)]"

definition enriched_turn :: "string \<Rightarrow> string \<Rightarrow> string \<Rightarrow> json" where
  "enriched_turn t f a =
     JObj [(''text'', JStr t), (''facialExpression'', JStr f), (''animation'', JStr a),
           (''audio'', JStr ''SUQz''), (''lipsync'', JObj [])]"

definition five_turns :: "json list" where
  "five_turns =
     [turn ''one'' ''smile'' ''Talking_0'', turn ''two'' ''sad'' ''Talking_1'',
      turn ''three'' ''angry'' ''Talking_2'', turn ''four'' ''surprised'' ''Idle'',
      turn ''five'' ''default'' ''Rumba'']"

definition five_enriched :: "json list" where
  "five_enriched =
     [enriched_turn ''one'' ''smile'' ''Talking_0'', enriched_turn ''two'' ''sad'' ''Talking_1'',
      enriched_turn ''three'' ''angry'' ''Talking_2'', enriched_turn ''four'' ''surprised'' ''Idle'',
      enriched_turn ''five'' ''default'' ''Rumba'']"

text \<open>A turn outside both enumerations, and a turn with neither expression nor animation.\<close>

definition two_turns :: "json list" where
  "two_turns = [turn ''hi there'' ''wink'' ''Moonwalk'', JObj [(''text'', JStr ''bye'')]]"

definition two_enriched :: "json list" where
  "two_enriched =
     [enriched_turn ''hi there'' ''wink'' ''Moonwalk'',
      JObj [(''text'', JStr ''bye''), (''audio'', JStr ''SUQz''), (''lipsync'', JObj [])]]"

definition one_turn :: "json list" where
  "one_turn = [turn ''hi there'' ''smile'' ''Talking_0'']"



definition disk_example :: files where
  "disk_example = (\<lambda>_. None)(''audios/message_0.mp3'' := Some [73, 68, 51, 4])"

section \<open>Auxiliary facts\<close>

subsection \<open>Sequencing\<close>

lemma and_then_InrE:
  assumes "and_then m f st = (st', Inr y)"
  obtains x st1 where "m st = (st1, Inr x)" and "f x st1 = (st', Inr y)"
  using assms by (auto simp: and_then_def split: prod.splits sum.splits)

lemma lift_InrD: "lift r st = (st', Inr x) \<Longrightarrow> r = Inr x \<and> st' = st"
  by (simp add: lift_def)

lemma resolved_InrD: "resolved x st = (st', Inr y) \<Longrightarrow> y = x \<and> st' = st"
  by (auto simp add: resolved_def)

subsection \<open>Indices as property keys\<close>

lemma digit_val_char_all: "\<forall>d\<in>{0..<10}. digit_val (digit_char d) = d"
  by code_simp

lemma digit_val_char: "d < 10 \<Longrightarrow> digit_val (digit_char d) = d"
  using digit_val_char_all by simp

lemma read_nat_snoc: "read_nat (s @ [c]) = 10 * read_nat s + digit_val c"
  by (simp add: read_nat_def)

lemma read_show_nat: "read_nat (show_nat n) = n"
proof (induction n rule: show_nat.induct)
  case (1 n)
  show ?case
  proof (cases "n < 10")
    case True
    then show ?thesis by (simp add: show_nat.simps read_nat_def digit_val_char)
  next
    case False
    with 1 have "read_nat (show_nat (n div 10)) = n div 10" by simp
    with False show ?thesis
      by (subst show_nat.simps) (simp add: read_nat_snoc digit_val_char)
  qed
qed

lemma inj_show_nat: "inj show_nat"
  by (rule inj_on_inverseI [where g = read_nat]) (rule read_show_nat)

lemma array_index_show_nat: "array_index (show_nat i) = Some i"
  by (simp add: array_index_def read_show_nat)

lemma keys_put_own:
  "map fst (put_own kvs k v) = (if k \<in> fst ` set kvs then map fst kvs else map fst kvs @ [k])"
proof (induction kvs)
  case Nil
  show ?case by simp
next
  case (Cons kv kvs)
  obtain k' v' where kv: "kv = (k', v')" by (cases kv)
  show ?case
  proof (cases "k' = k")
    case True
    with kv show ?thesis by simp
  next
    case False
    with kv Cons show ?thesis by auto
  qed
qed

subsection \<open>The loop terminates\<close>

text \<open>
  Over an array the index runs up to the length. Over an object with a \<^verbatim>\<open>length\<close> field the
  body succeeds only where the index is a key of the object, and there are finitely many.
\<close>

lemma loop_body_Inr:
  assumes "loop_body env messages i st = (st', Inr messages')"
  shows "\<exists>message audio lipsync message1 message2.
           get_member messages (show_nat i) = Inr message
           \<and> set_member_opt message ''audio'' (JStr audio) = Inr message1
           \<and> set_member message1 ''lipsync'' lipsync = Inr message2
           \<and> messages' = put_element messages i message2"
  using assms unfolding loop_body_def
  apply (elim and_then_InrE)
  apply (drule lift_InrD resolved_InrD)+
  apply (elim conjE)
  apply (intro exI conjI)
     apply assumption+
  done

lemma finite_index_keys:
  "finite {j. i \<le> j \<and> show_nat j \<in> fst ` set (kvs :: (string \<times> json) list)}"
proof -
  have "finite (show_nat -` (fst ` set kvs))"
    by (rule finite_vimageI) (simp_all add: inj_show_nat)
  moreover have "{j. i \<le> j \<and> show_nat j \<in> fst ` set kvs} \<subseteq> show_nat -` (fst ` set kvs)"
    by auto
  ultimately show ?thesis by (rule rev_finite_subset)
qed

lemma loop_test_JArr: "loop_test env (JArr xs) i = Inr (i < length xs)"
  by (simp add: loop_test_def)

lemma loop_measure_decreases:
  assumes t: "loop_test env messages i = Inr True"
    and b: "loop_body env messages i st = (st', Inr messages')"
  shows "loop_measure messages' (Suc i) < loop_measure messages i"
proof -
  from loop_body_Inr [OF b] obtain message audio lipsync message1 message2
    where g: "get_member messages (show_nat i) = Inr message"
      and s: "set_member_opt message ''audio'' (JStr audio) = Inr message1"
      and p: "messages' = put_element messages i message2"
    by blast
  from s obtain m where m: "message = Some m" by (cases message) simp_all
  show ?thesis
  proof (cases messages)
    case (JArr xs)
    with t have "i < length xs" by (simp add: loop_test_JArr)
    with JArr p show ?thesis by (simp add: loop_measure_def)
  next
    case (JObj kvs)
    with g m have "map_of kvs (show_nat i) = Some m" by simp
    then have k: "show_nat i \<in> fst ` set kvs"
      by (metis domI dom_map_of_conv_image_fst)
    let ?A = "{j. Suc i \<le> j \<and> show_nat j \<in> fst ` set kvs}"
    let ?B = "{j. i \<le> j \<and> show_nat j \<in> fst ` set kvs}"
    from k have "i \<in> ?B" and "i \<notin> ?A" by simp_all
    moreover have "?A \<subseteq> ?B" by auto
    ultimately have "?A \<subset> ?B" by blast
    then have "card ?A < card ?B"
      by (rule psubset_card_mono [OF finite_index_keys])
    moreover from JObj p k have "messages' = JObj (put_own kvs (show_nat i) message2)"
      and "fst ` set (put_own kvs (show_nat i) message2) = fst ` set kvs"
      using keys_put_own [of kvs "show_nat i" message2]
      by (simp_all) (metis list.set_map)
    ultimately show ?thesis using JObj by (simp add: loop_measure_def)
  next
    case JNull
    with g show ?thesis by simp
  next
    case (JBool x)
    with g m show ?thesis by simp
  next
    case (JNum x)
    with g m show ?thesis by simp
  next
    case (JStr x)
    with g m s show ?thesis by (auto split: if_splits option.splits)
  qed
qed

termination chat_loop
  by (relation "measure (\<lambda>(env, messages, i, st). loop_measure messages i)")
     (auto dest: loop_measure_decreases [OF _ sym])

declare chat_loop.simps [simp del]

subsection \<open>Base64\<close>

lemma byte_lt: "unat (a :: byte) < 256"
  using unsigned_less [of a, where 'a = nat] by simp

lemma hi4: "unat (b::byte) div 16 < 16"
  using byte_lt [of b] by simp

lemma hi2: "unat (c::byte) div 64 < 4"
  using byte_lt [of c] by simp

lemma sextet_bounds:
  "sextet1 a < 64" "sextet2 a b < 64" "sextet3 b c < 64" "sextet4 c < 64"
proof -
  show "sextet1 a < 64" using byte_lt [of a] by (simp add: sextet1_def)
  have "unat a mod 4 \<le> 3" by simp
  with hi4 [of b] show "sextet2 a b < 64" unfolding sextet2_def by linarith
  have "unat b mod 16 \<le> 15" by simp
  with hi2 [of c] show "sextet3 b c < 64" unfolding sextet3_def by linarith
  show "sextet4 c < 64" by (simp add: sextet4_def)
qed

lemma octet1_sextets: "octet1 (sextet1 a) (sextet2 a b) = a"
proof -
  have "(unat a mod 4 * 16 + unat b div 16) div 16 = unat a mod 4"
    using hi4 [of b] by simp
  then have "sextet1 a * 4 + sextet2 a b div 16 = unat a"
    by (simp add: sextet1_def sextet2_def)
  then show ?thesis unfolding octet1_def by simp
qed

lemma octet2_sextets: "octet2 (sextet2 a b) (sextet3 b c) = b"
proof -
  have "(unat a mod 4 * 16 + unat b div 16) mod 16 = unat b div 16"
    using hi4 [of b] by simp
  moreover have "(unat b mod 16 * 4 + unat c div 64) div 4 = unat b mod 16"
    using hi2 [of c] by simp
  ultimately have "sextet2 a b mod 16 * 16 + sextet3 b c div 4 = unat b"
    by (simp add: sextet2_def sextet3_def)
  then show ?thesis unfolding octet2_def by simp
qed

lemma octet3_sextets: "octet3 (sextet3 b c) (sextet4 c) = c"
proof -
  have "(unat b mod 16 * 4 + unat c div 64) mod 4 = unat c div 64"
    using hi2 [of c] by simp
  then have "sextet3 b c mod 4 * 64 + sextet4 c = unat c"
    by (simp add: sextet3_def sextet4_def)
  then show ?thesis unfolding octet3_def by simp
qed

lemma b64_alphabet_length: "length b64_alphabet = 64"
  by (simp add: b64_alphabet_def)

lemma b64_alphabet_distinct: "distinct b64_alphabet"
  by (simp add: b64_alphabet_def)

lemma b64_val_char: "n < 64 \<Longrightarrow> b64_val (b64_char n) = Some n"
  unfolding b64_val_def b64_char_def
  using map_of_zip_nth [of b64_alphabet "[0..<64]" n]
  by (simp add: b64_alphabet_length b64_alphabet_distinct)

lemma b64_char_not_pad: "n < 64 \<Longrightarrow> b64_char n \<noteq> b64_pad"
proof -
  assume "n < 64"
  then have "b64_char n \<in> set b64_alphabet"
    by (simp add: b64_char_def b64_alphabet_length)
  moreover have "b64_pad \<notin> set b64_alphabet"
    by (simp add: b64_alphabet_def b64_pad_def)
  ultimately show ?thesis by auto
qed

lemma base64_roundtrip: "base64_decode (base64_encode bs) = Some bs"
proof (induction bs rule: base64_encode.induct)
  case 1
  then show ?case by simp
next
  case (2 a)
  show ?case by (simp add: b64_val_char sextet_bounds octet1_sextets)
next
  case (3 a b)
  show ?case
    by (simp add: b64_val_char sextet_bounds b64_char_not_pad octet1_sextets octet2_sextets)
next
  case (4 a b c rest)
  then show ?case
    by (simp add: b64_val_char sextet_bounds b64_char_not_pad
        octet1_sextets octet2_sextets octet3_sextets)
qed

subsection \<open>The loop over an array\<close>

lemma digit_char_digit: "d < 10 \<Longrightarrow> digit_char d \<in> set ''0123456789''"
  unfolding digit_char_def by (rule nth_mem) simp

lemma show_nat_digits: "set (show_nat n) \<subseteq> set ''0123456789''"
proof (induction n rule: show_nat.induct)
  case (1 n)
  show ?case
  proof (cases "n < 10")
    case True
    then show ?thesis
      using digit_char_digit [of n] by (subst show_nat.simps) simp
  next
    case False
    with 1 have "set (show_nat (n div 10)) \<subseteq> set ''0123456789''" by simp
    moreover have "digit_char (n mod 10) \<in> set ''0123456789''"
      by (rule digit_char_digit) simp
    ultimately show ?thesis
      using False by (subst show_nat.simps) simp
  qed
qed

lemma show_nat_not_length: "show_nat i \<noteq> ''length''"
proof
  assume "show_nat i = ''length''"
  then have "CHR ''l'' \<in> set (show_nat i)" by simp
  with show_nat_digits [of i] show False by auto
qed

lemma get_member_JArr_index:
  "get_member (JArr xs) (show_nat i) = Inr (if i < length xs then Some (xs ! i) else None)"
  by (simp add: show_nat_not_length array_index_show_nat)

lemma and_then_lift_Inr: "and_then (lift (Inr x)) f = f x"
  by (rule ext) (simp add: and_then_def lift_def)

lemma and_then_assoc:
  "and_then (and_then m f) g = and_then m (\<lambda>x. and_then (f x) g)"
  by (rule ext) (simp add: and_then_def split: prod.splits sum.splits)

lemma loop_body_enrich:
  "get_member messages (show_nat i) = Inr message \<Longrightarrow>
   loop_body env messages i =
     and_then (enrich_turn env i message) (\<lambda>message2. resolved (put_element messages i message2))"
  by (simp add: loop_body_def enrich_turn_def and_then_lift_Inr and_then_assoc)

lemma chat_loop_JArr:
  "i \<le> length xs \<Longrightarrow>
   chat_loop env (JArr xs) i st = rebuilt (take i xs) (enrich_from env i (drop i xs) st)"
proof (induction "length xs - i" arbitrary: i xs st)
  case 0
  then have "i = length xs" by simp
  then show ?case
    by (subst chat_loop.simps) (simp add: loop_test_JArr rebuilt_def resolved_def)
next
  case (Suc n)
  then have lt: "i < length xs" by simp
  then have d: "drop i xs = xs ! i # drop (Suc i) xs"
    by (simp add: Cons_nth_drop_Suc)
  have g: "get_member (JArr xs) (show_nat i) = Inr (Some (xs ! i))"
    using lt by (simp only: get_member_JArr_index if_True)
  show ?case
  proof (cases "enrich_turn env i (Some (xs ! i)) st")
    case (Pair st1 r)
    show ?thesis
    proof (cases r)
      case (Inl e)
      with Pair show ?thesis
        by (subst chat_loop.simps)
           (simp add: loop_test_JArr lt loop_body_enrich [OF g] d and_then_def rebuilt_def)
    next
      case (Inr t')
      have "chat_loop env (JArr (xs[i := t'])) (Suc i) st1
              = rebuilt (take (Suc i) (xs[i := t']))
                  (enrich_from env (Suc i) (drop (Suc i) (xs[i := t'])) st1)"
        using Suc lt by (intro Suc.hyps) simp_all
      moreover have "take (Suc i) (xs[i := t']) = take i xs @ [t']"
        using lt by (simp add: take_Suc_conv_app_nth)
      moreover have "drop (Suc i) (xs[i := t']) = drop (Suc i) xs"
        by simp
      ultimately show ?thesis using Pair Inr
        by (subst chat_loop.simps)
           (simp add: loop_test_JArr lt loop_body_enrich [OF g] d and_then_def rebuilt_def
              resolved_def split: prod.splits sum.splits)
    qed
  qed
qed

lemma enrich_turn_Inr:
  assumes "enrich_turn env i message st = (st', Inr t')"
  shows "\<exists>t. message = Some t \<and> enriched t t'"
proof -
  have "\<exists>audio lipsync m1. set_member_opt message ''audio'' (JStr audio) = Inr m1
          \<and> set_member m1 ''lipsync'' lipsync = Inr t'"
    using assms unfolding enrich_turn_def
    apply (elim and_then_InrE)
    apply (drule lift_InrD)+
    apply (elim conjE)
    apply (intro exI conjI)
     apply assumption+
    done
  then obtain audio lipsync m1
    where a: "set_member_opt message ''audio'' (JStr audio) = Inr m1"
      and l: "set_member m1 ''lipsync'' lipsync = Inr t'"
    by blast
  from a obtain t where t: "message = Some t" by (cases message) simp_all
  with a l show ?thesis unfolding enriched_def by auto
qed

lemma enrich_from_Inr:
  "enrich_from env i ts st = (st', Inr ts') \<Longrightarrow> list_all2 enriched ts ts'"
proof (induction ts arbitrary: i st st' ts')
  case Nil
  then show ?case by (simp add: resolved_def)
next
  case (Cons t ts)
  from Cons.prems obtain t' st1 us
    where 1: "enrich_turn env i (Some t) st = (st1, Inr t')"
      and 2: "enrich_from env (Suc i) ts st1 = (st', Inr us)"
      and 3: "ts' = t' # us"
    by (auto elim!: and_then_InrE dest!: resolved_InrD)
  from enrich_turn_Inr [OF 1] have "enriched t t'" by simp
  moreover from Cons.IH [OF 2] have "list_all2 enriched ts us" .
  ultimately show ?case using 3 by simp
qed

lemma chat_loop_JArr_Inr:
  assumes "chat_loop env (JArr ts) 0 st = (st', Inr out)"
  shows "\<exists>ts'. out = JArr ts' \<and> list_all2 enriched ts ts'"
proof -
  from assms have "rebuilt [] (enrich_from env 0 ts st) = (st', Inr out)"
    by (simp add: chat_loop_JArr)
  then obtain ts' where "enrich_from env 0 ts st = (st', Inr ts')" and "out = JArr ts'"
    by (auto simp: rebuilt_def split: prod.splits sum.splits)
  with enrich_from_Inr show ?thesis by blast
qed

lemma map_of_put_own: "map_of (put_own kvs k v) k' = (if k' = k then Some v else map_of kvs k')"
  by (induction kvs) auto

lemma set_member_other:
  "set_member t k v = Inr t' \<Longrightarrow> k' \<noteq> k \<Longrightarrow> get_member t' k' = get_member t k'"
  by (cases t) (auto simp: map_of_put_own)

lemma enriched_other:
  assumes "enriched t t'" and "k \<noteq> ''audio''" and "k \<noteq> ''lipsync''"
  shows "get_member t' k = get_member t k"
proof -
  from assms(1) obtain audio lipsync m1
    where a: "set_member t ''audio'' (JStr audio) = Inr m1"
      and l: "set_member m1 ''lipsync'' lipsync = Inr t'"
    unfolding enriched_def by blast
  from set_member_other [OF l assms(3)] set_member_other [OF a assms(2)]
  show ?thesis by simp
qed

lemma enriched_object:
  assumes "enriched (JObj kvs) t'"
  shows "\<exists>kvs' audio lipsync. t' = JObj kvs' \<and> map_of kvs' ''audio'' = Some (JStr audio)
           \<and> map_of kvs' ''lipsync'' = Some lipsync"
  using assms unfolding enriched_def by (auto simp: map_of_put_own)

lemma and_then_lift_Inl: "and_then (lift (Inl e)) f = lift (Inl e)"
  by (rule ext) (simp add: and_then_def lift_def)

lemma and_then_step:
  "m st = (st1, Inr x) \<Longrightarrow> and_then m f st = f x st1"
  "m st = (st1, Inl e) \<Longrightarrow> and_then m f st = (st1, Inl e)"
  by (simp_all add: and_then_def)

subsection \<open>The gateways\<close>



lemma createCompletion_run:
  "createCompletion env content st
     = (st\<lparr>calls := calls st @ [Started (Complete content),
                                Settled (Complete content) (is_ok (chat_completion env content))]\<rparr>,
        chat_completion env content)"
  by (simp add: createCompletion_def settle_def)

lemma readFile_run:
  "readFile file st
     = (st, case files st file of None \<Rightarrow> Inl (ENOENT file) | Some data \<Rightarrow> Inr data)"
  by (simp add: readFile_def split: option.splits)



subsection \<open>Walks\<close>


















subsection \<open>A response means that no call has failed\<close>














subsection \<open>The log only grows\<close>








subsection \<open>The handler, step by step\<close>

lemma createCompletion_Inr:
  "createCompletion env c st = (st', Inr content) \<Longrightarrow>
   chat_completion env c = Inr content
   \<and> st' = st\<lparr>calls := calls st @ [Started (Complete c), Settled (Complete c) True]\<rparr>"
  by (auto simp: createCompletion_run is_ok_def)

lemma chat_Inr:
  assumes "chat env body st = (st', Inr out)"
  shows "\<exists>userMessage content messages messages'.
           get_member body ''message'' = Inr userMessage
           \<and> chat_completion env (user_content userMessage) = Inr content
           \<and> turn_normalizer env content = Inr messages
           \<and> chat_loop env messages 0 (after_completion userMessage st) = (st', Inr messages')
           \<and> out = response messages'"
  using assms unfolding chat_def
  apply (elim and_then_InrE)
  apply (drule lift_InrD resolved_InrD createCompletion_Inr)+
  apply (auto simp: after_completion_def)
  done

subsection \<open>Runs of the test doubles\<close>

lemma array_index_None:
  assumes "c \<in> set k" and "c \<notin> set ''0123456789''"
  shows "array_index k = None"
proof (cases "show_nat (read_nat k) = k")
  case True
  with show_nat_digits [of "read_nat k"] assms show ?thesis by auto
next
  case False
  then show ?thesis by (simp add: array_index_def)
qed

lemma array_index_messages: "array_index ''messages'' = None"
  by (rule array_index_None [where c = "CHR ''m''"]) simp_all

lemma array_index_text: "array_index ''text'' = None"
  by (rule array_index_None [where c = "CHR ''t''"]) simp_all

lemma array_index_facialExpression: "array_index ''facialExpression'' = None"
  by (rule array_index_None [where c = "CHR ''f''"]) simp_all

lemma array_index_animation: "array_index ''animation'' = None"
  by (rule array_index_None [where c = "CHR ''a''"]) simp_all

lemma show_nat_small:
  "show_nat 0 = ''0''" "show_nat (Suc 0) = ''1''" "show_nat (Suc (Suc 0)) = ''2''"
  "show_nat (Suc (Suc (Suc 0))) = ''3''" "show_nat (Suc (Suc (Suc (Suc 0)))) = ''4''"
  by (simp_all add: show_nat.simps digit_char_def)

lemma array_index_small:
  "array_index ''0'' = Some 0" "array_index ''1'' = Some (Suc 0)"
  "array_index ''2'' = Some (Suc (Suc 0))" "array_index ''3'' = Some (Suc (Suc (Suc 0)))"
  "array_index ''4'' = Some (Suc (Suc (Suc (Suc 0))))"
  using array_index_show_nat [of 0] array_index_show_nat [of "Suc 0"]
    array_index_show_nat [of "Suc (Suc 0)"] array_index_show_nat [of "Suc (Suc (Suc 0))"]
    array_index_show_nat [of "Suc (Suc (Suc (Suc 0)))"]
  by (simp_all add: show_nat_small)

lemma base64_ID3:
  "b64_char (sextet1 73) = CHR ''S''" "b64_char (sextet2 73 68) = CHR ''U''"
  "b64_char (sextet3 68 51) = CHR ''Q''" "b64_char (sextet4 51) = CHR ''z''"
  by code_simp+


lemmas run_defs = chat_def and_then_def lift_def resolved_def settle_def is_ok_def
  turn_normalizer_def unwrap_def user_content_def response_def loop_test_def loop_body_def
  textToSpeech_def createCompletion_def lipSyncMessage_def execCommand_def settled_def
  resolve_def reject_def audioFileToBase64_def readJsonTranscript_def readFile_def
  mp3_file_def wav_file_def json_file_def chat_loop.simps
  studio_def fresh_def hello_request_def turn_def enriched_turn_def
  show_nat_small array_index_small base64_ID3 array_index_messages array_index_text

lemma two_loop:
  "snd (chat_loop (studio JNull) (JArr two_turns) 0 fresh) = Inr (JArr two_enriched)"
  by (simp add: run_defs two_turns_def two_enriched_def)

lemma two_chat:
  "snd (chat (studio (JArr two_turns)) hello_request fresh) = Inr (response (JArr two_enriched))"
  by (simp add: run_defs two_turns_def two_enriched_def)

lemma five_chat:
  "snd (chat (studio (JObj [(''messages'', JArr five_turns)])) hello_request fresh)
     = Inr (response (JArr five_enriched))"
  by (simp add: run_defs five_turns_def five_enriched_def)

lemma object_chat:
  "snd (chat (studio (JObj [(''text'', JStr ''hi'')])) hello_request fresh)
     = Inr (response (JObj [(''text'', JStr ''hi'')]))"
  by (simp add: run_defs)

lemma infinity_chat:
  "snd (chat (studio (JNum PosInf)) hello_request fresh) = Inr (JObj [(''messages'', JNull)])"
  by (simp add: run_defs)







lemma one_body_files:
  "files (fst (loop_body (studio JNull) (JArr one_turn) 0 fresh)) ''audios/message_0.mp3''
     = Some [73, 68, 51]"
  "files (fst (loop_body (studio JNull) (JArr one_turn) 0 fresh)) ''audios/message_0.json''
     = Some [123, 125]"
  by (simp_all add: run_defs one_turn_def)

lemma unwrap_list:
  "parsed = JArr ts \<or> (\<exists>kvs. parsed = JObj kvs \<and> map_of kvs ''messages'' = Some (JArr ts))
   \<Longrightarrow> unwrap parsed = Inr (JArr ts)"
  by (auto simp: unwrap_def array_index_messages)

lemma shapeless_loop:
  "shapeless m \<Longrightarrow> chat_loop env m 0 st = (st, Inr m)"
  by (cases m; subst chat_loop.simps) (simp_all add: loop_test_def)

lemma run_pair: "snd p = r \<Longrightarrow> p = (fst p, r)"
  by auto

subsection \<open>What a response holds\<close>

lemma list_all2_enriched_frame:
  assumes "list_all2 enriched ts ts'" and "j < length ts"
    and "k \<noteq> ''audio''" and "k \<noteq> ''lipsync''"
  shows "get_member (ts' ! j) k = get_member (ts ! j) k"
  using assms by (auto dest: list_all2_nthD intro: enriched_other)

lemma response_JArr: "response (JArr ts) = JObj [(''messages'', JArr (map wire ts))]"
  by (simp add: response_def)

lemma map_of_wire:
  "map_of (map (\<lambda>kv. (fst kv, wire (snd kv))) kvs) k = map_option wire (map_of kvs k)"
  by (induction kvs) auto

lemma enriched_kind: "enriched t t' \<Longrightarrow> (\<exists>kvs. t' = JObj kvs) \<or> (\<exists>xs. t' = JArr xs)"
  unfolding enriched_def by (cases t) auto

lemma get_member_wire:
  assumes "(\<exists>kvs. t = JObj kvs) \<or> (\<exists>xs. t = JArr xs)"
  shows "get_member (wire t) k = map_sum id (map_option wire) (get_member t k)"
  using assms by (auto simp: map_of_wire split: option.splits)

lemma chat_list_Inr:
  assumes run: "chat env body st = (st', Inr out)"
    and um: "get_member body ''message'' = Inr userMessage"
    and co: "chat_completion env (user_content userMessage) = Inr content"
    and pa: "json_parse env content = Inr parsed"
    and sh: "parsed = JArr ts \<or> (\<exists>kvs. parsed = JObj kvs \<and> map_of kvs ''messages'' = Some (JArr ts))"
  shows "\<exists>ts'. out = JObj [(''messages'', JArr (map wire ts'))] \<and> list_all2 enriched ts ts'"
proof -
  from chat_Inr [OF run] obtain userMessage' content' messages messages'
    where 1: "get_member body ''message'' = Inr userMessage'"
      and 2: "chat_completion env (user_content userMessage') = Inr content'"
      and 3: "turn_normalizer env content' = Inr messages"
      and 4: "chat_loop env messages 0 (after_completion userMessage' st) = (st', Inr messages')"
      and 5: "out = response messages'"
    by blast
  from 1 um have "userMessage' = userMessage" by simp
  with 2 co have "content' = content" by simp
  with 3 pa unwrap_list [OF sh] have "messages = JArr ts"
    by (simp add: turn_normalizer_def)
  with 4 chat_loop_JArr_Inr obtain ts' where "messages' = JArr ts'" "list_all2 enriched ts ts'"
    by blast
  with 5 show ?thesis by (auto simp: response_JArr)
qed

subsection \<open>What an iteration attaches\<close>



subsection \<open>Expression and animation play no part\<close>

lemma plain_keys: "plain_key ''text''" "plain_key ''audio''" "plain_key ''lipsync''"
  by (simp_all add: plain_key_def)

lemma map_of_filter_plain:
  "plain_key k \<Longrightarrow> map_of (filter (\<lambda>kv. plain_key (fst kv)) kvs) k = map_of kvs k"
  by (induction kvs) auto

lemma filter_put_own:
  "plain_key k \<Longrightarrow>
   filter (\<lambda>kv. plain_key (fst kv)) (put_own kvs k v)
     = put_own (filter (\<lambda>kv. plain_key (fst kv)) kvs) k v"
  by (induction kvs) auto

lemma get_member_strip: "plain_key k \<Longrightarrow> get_member (strip t) k = get_member t k"
  by (cases t) (simp_all add: map_of_filter_plain)

lemma set_member_strip:
  "plain_key k \<Longrightarrow> set_member (strip t) k v = map_sum id strip (set_member t k v)"
  by (cases t) (simp_all add: filter_put_own)

lemma and_then_mapped:
  assumes "\<And>x s. f' x s = mapped g (f x s)"
  shows "and_then m f' st = mapped g (and_then m f st)"
  using assms by (simp add: and_then_def mapped_def split: prod.splits sum.splits)

lemma and_then_mapped_both:
  assumes "m' st = mapped g (m st)" and "\<And>x s. f' (g x) s = mapped h (f x s)"
  shows "and_then m' f' st = mapped h (and_then m f st)"
  using assms by (simp add: and_then_def mapped_def split: prod.splits sum.splits)

lemma attach_strip:
  "and_then (lift (set_member_opt (Some (strip t)) ''audio'' a)) (\<lambda>m1.
     and_then d (\<lambda>cues. lift (set_member m1 ''lipsync'' cues))) s
   = mapped strip
       (and_then (lift (set_member_opt (Some t) ''audio'' a)) (\<lambda>m1.
          and_then d (\<lambda>cues. lift (set_member m1 ''lipsync'' cues))) s)"
proof (cases "set_member t ''audio'' a")
  case (Inl e)
  then show ?thesis
    by (simp add: set_member_strip plain_keys and_then_lift_Inl lift_def mapped_def)
next
  case (Inr m1)
  have "and_then d (\<lambda>cues. lift (set_member (strip m1) ''lipsync'' cues)) s
          = mapped strip (and_then d (\<lambda>cues. lift (set_member m1 ''lipsync'' cues)) s)"
    by (rule and_then_mapped) (simp add: set_member_strip plain_keys lift_def mapped_def)
  with Inr show ?thesis
    by (simp add: set_member_strip plain_keys and_then_lift_Inr)
qed

lemma enrich_turn_strip:
  "enrich_turn env i (Some (strip t)) st = mapped strip (enrich_turn env i (Some t) st)"
  unfolding enrich_turn_def get_member_opt.simps get_member_strip [OF plain_keys(1)]
  by (intro and_then_mapped attach_strip)

lemma enrich_from_strip:
  "enrich_from env i (map strip ts) st = mapped (map strip) (enrich_from env i ts st)"
proof (induction ts arbitrary: i st)
  case Nil
  show ?case by (simp add: resolved_def mapped_def)
next
  case (Cons t ts)
  show ?case
    unfolding list.map enrich_from.simps
  proof (rule and_then_mapped_both [OF enrich_turn_strip])
    fix x s
    show "and_then (enrich_from env (Suc i) (map strip ts)) (\<lambda>ts'. resolved (strip x # ts')) s
            = mapped (map strip)
                (and_then (enrich_from env (Suc i) ts) (\<lambda>ts'. resolved (x # ts')) s)"
      by (rule and_then_mapped_both [OF Cons.IH]) (simp add: resolved_def mapped_def)
  qed
qed

lemma chat_loop_strip:
  "chat_loop env (JArr (map strip ts)) 0 st = mapped strip_turns (chat_loop env (JArr ts) 0 st)"
  by (simp add: chat_loop_JArr enrich_from_strip rebuilt_def mapped_def
      split: prod.splits sum.splits)

subsection \<open>A reply that is a list\<close>

lemma chat_after_completion:
  assumes "get_member body ''message'' = Inr userMessage"
    and "chat_completion env (user_content userMessage) = Inr content"
  shows "chat env body st
           = and_then (lift (turn_normalizer env content)) (\<lambda>messages.
               and_then (chat_loop env messages 0) (\<lambda>messages'.
               resolved (response messages'))) (after_completion userMessage st)"
proof -
  let ?rest = "\<lambda>content. and_then (lift (turn_normalizer env content)) (\<lambda>messages.
                 and_then (chat_loop env messages 0) (\<lambda>messages'.
                 resolved (response messages')))"
  have a: "createCompletion env (user_content userMessage) st
             = (after_completion userMessage st, Inr content)"
    using assms(2) by (simp add: createCompletion_run is_ok_def after_completion_def)
  have "chat env body = and_then (createCompletion env (user_content userMessage)) ?rest"
    using assms(1) by (simp add: chat_def and_then_lift_Inr)
  then show ?thesis
    using and_then_step(1)
      [where m = "createCompletion env (user_content userMessage)"
         and st = st and f = ?rest, OF a]
    by simp
qed

lemma chat_batch:
  assumes "get_member body ''message'' = Inr userMessage"
    and "chat_completion env (user_content userMessage) = Inr content"
    and "json_parse env content = Inr parsed"
    and "parsed = JArr ts \<or> (\<exists>kvs. parsed = JObj kvs \<and> map_of kvs ''messages'' = Some (JArr ts))"
  shows "chat env body st
           = (case chat_loop env (JArr ts) 0 (after_completion userMessage st) of
                (st', Inl e) \<Rightarrow> (st', Inl e)
              | (st', Inr out) \<Rightarrow> (st', Inr (response out)))"
proof -
  have "turn_normalizer env content = Inr (JArr ts)"
    using assms(3) unwrap_list [OF assms(4)] by (simp add: turn_normalizer_def)
  then show ?thesis
    by (simp add: chat_after_completion [OF assms(1,2)] and_then_lift_Inr and_then_def
        resolved_def)
qed



section \<open>The claims\<close>

text \<open>
  C1, as amended. No cap is enforced: when the reply parses to a list of turns, bare or under
  \<^verbatim>\<open>messages\<close>, and the handler answers, the response holds as many turns as the list,
  whatever its length. The maximum of three is only asked of the model, in the prompt.
\<close>

theorem response_length:
  assumes "chat env body st = (st', Inr out)"
    and "get_member body ''message'' = Inr userMessage"
    and "chat_completion env (user_content userMessage) = Inr content"
    and "json_parse env content = Inr parsed"
    and "parsed = JArr ts \<or> (\<exists>kvs. parsed = JObj kvs \<and> map_of kvs ''messages'' = Some (JArr ts))"
  shows "\<exists>ts'. out = JObj [(''messages'', JArr ts')] \<and> length ts' = length ts"
proof -
  from chat_list_Inr [OF assms] obtain ts'
    where "out = JObj [(''messages'', JArr (map wire ts'))]" and "list_all2 enriched ts ts'"
    by blast
  then have "out = JObj [(''messages'', JArr (map wire ts'))] \<and> length (map wire ts') = length ts"
    by (simp add: list_all2_lengthD)
  then show ?thesis by blast
qed

theorem response_length_witness:
  "chat (studio (JObj [(''messages'', JArr five_turns)])) hello_request fresh
     = (fst (chat (studio (JObj [(''messages'', JArr five_turns)])) hello_request fresh),
        Inr (response (JArr five_enriched)))
   \<and> get_member hello_request ''message'' = Inr (Some (JStr ''hi''))
   \<and> chat_completion (studio (JObj [(''messages'', JArr five_turns)]))
        (user_content (Some (JStr ''hi''))) = Inr ''reply''
   \<and> json_parse (studio (JObj [(''messages'', JArr five_turns)])) ''reply''
        = Inr (JObj [(''messages'', JArr five_turns)])
   \<and> (\<exists>ts'. response (JArr five_enriched) = JObj [(''messages'', JArr ts')]
          \<and> length ts' = length five_turns)"
proof -
  let ?env = "studio (JObj [(''messages'', JArr five_turns)])"
  have 1: "chat ?env hello_request fresh
             = (fst (chat ?env hello_request fresh), Inr (response (JArr five_enriched)))"
    by (rule run_pair) (rule five_chat)
  have 2: "get_member hello_request ''message'' = Inr (Some (JStr ''hi''))"
    by (simp add: hello_request_def)
  have 3: "chat_completion ?env (user_content (Some (JStr ''hi''))) = Inr ''reply''"
    by (simp add: studio_def)
  have 4: "json_parse ?env ''reply'' = Inr (JObj [(''messages'', JArr five_turns)])"
    by (simp add: studio_def)
  have 5: "JObj [(''messages'', JArr five_turns)] = JArr five_turns
           \<or> (\<exists>kvs. JObj [(''messages'', JArr five_turns)] = JObj kvs
                 \<and> map_of kvs ''messages'' = Some (JArr five_turns))"
    by simp
  from response_length [OF 1 2 3 4 5] 1 2 3 4 show ?thesis by blast
qed

text \<open>
  Five turns in the reply come back as five turns in the response.
\<close>

theorem cap_not_enforced:
  "snd (chat (studio (JObj [(''messages'', JArr five_turns)])) hello_request fresh)
     = Inr (JObj [(''messages'', JArr five_enriched)])
   \<and> length five_turns = 5 \<and> length five_enriched = 5"
  using five_chat by (simp add: response_def five_turns_def five_enriched_def enriched_turn_def)

text \<open>
  C2, as amended. Nothing checks \<^verbatim>\<open>facialExpression\<close> or \<^verbatim>\<open>animation\<close>, and no turn is
  rejected for them: on a reply that parses to a list of turns, bare or under
  \<^verbatim>\<open>messages\<close>, the handler makes the calls, leaves the files and fails with the error, if
  it fails, that the loop makes, leaves and fails with on the same list with both fields
  taken away from every turn. When the handler answers, each turn of the response reads
  under \<^verbatim>\<open>facialExpression\<close> and under \<^verbatim>\<open>animation\<close> what the turn of the reply at the
  same place reads there, as the serialisation of the response writes it: a value outside
  the enumerations unchanged, a number that is not finite as \<^verbatim>\<open>null\<close>, a missing value missing.
  No default is put in.
\<close>

theorem expression_forwarded:
  assumes "get_member body ''message'' = Inr userMessage"
    and "chat_completion env (user_content userMessage) = Inr content"
    and "json_parse env content = Inr parsed"
    and "parsed = JArr ts \<or> (\<exists>kvs. parsed = JObj kvs \<and> map_of kvs ''messages'' = Some (JArr ts))"
  shows "fst (chat env body st)
           = fst (chat_loop env (JArr (map strip ts)) 0 (after_completion userMessage st))
         \<and> (\<forall>e. snd (chat env body st) = Inl e
                \<longleftrightarrow> snd (chat_loop env (JArr (map strip ts)) 0 (after_completion userMessage st))
                      = Inl e)
         \<and> (\<forall>out. snd (chat env body st) = Inr out \<longrightarrow>
               (\<exists>ts'. out = JObj [(''messages'', JArr ts')] \<and> length ts' = length ts
                  \<and> (\<forall>j<length ts.
                        get_member (ts' ! j) ''facialExpression''
                          = map_sum id (map_option wire) (get_member (ts ! j) ''facialExpression'')
                        \<and> get_member (ts' ! j) ''animation''
                            = map_sum id (map_option wire) (get_member (ts ! j) ''animation''))))"
proof -
  let ?S = "after_completion userMessage st"
  obtain st1 r1 where l: "chat_loop env (JArr ts) 0 ?S = (st1, r1)"
    by (cases "chat_loop env (JArr ts) 0 ?S")
  have s: "chat_loop env (JArr (map strip ts)) 0 ?S = (st1, map_sum id strip_turns r1)"
    by (simp add: chat_loop_strip l mapped_def)
  have c: "chat env body st = (st1, map_sum id response r1)"
    by (cases r1) (simp_all add: chat_batch [OF assms] l)
  have 1: "fst (chat env body st) = fst (chat_loop env (JArr (map strip ts)) 0 ?S)"
    by (simp add: c s)
  have 2: "snd (chat env body st) = Inl e
            \<longleftrightarrow> snd (chat_loop env (JArr (map strip ts)) 0 ?S) = Inl e" for e
    by (cases r1) (simp_all add: c s)
  have 3: "\<exists>ts'. out = JObj [(''messages'', JArr ts')] \<and> length ts' = length ts
             \<and> (\<forall>j<length ts.
                   get_member (ts' ! j) ''facialExpression''
                     = map_sum id (map_option wire) (get_member (ts ! j) ''facialExpression'')
                   \<and> get_member (ts' ! j) ''animation''
                       = map_sum id (map_option wire) (get_member (ts ! j) ''animation''))"
    if "snd (chat env body st) = Inr out" for out
  proof -
    from that have run: "chat env body st = (fst (chat env body st), Inr out)"
      by (rule run_pair)
    from chat_list_Inr [OF run assms] obtain us
      where o: "out = JObj [(''messages'', JArr (map wire us))]" and e: "list_all2 enriched ts us"
      by blast
    from e have len: "length us = length ts" by (simp add: list_all2_lengthD)
    have f: "get_member (map wire us ! j) k = map_sum id (map_option wire) (get_member (ts ! j) k)"
      if j: "j < length ts" and k: "k \<noteq> ''audio''" "k \<noteq> ''lipsync''" for j k
    proof -
      from e j have "enriched (ts ! j) (us ! j)" by (rule list_all2_nthD)
      from get_member_wire [OF enriched_kind [OF this]]
      have "get_member (wire (us ! j)) k = map_sum id (map_option wire) (get_member (us ! j) k)" .
      with list_all2_enriched_frame [OF e j k] j len show ?thesis by simp
    qed
    have "\<forall>j<length ts.
            get_member (map wire us ! j) ''facialExpression''
              = map_sum id (map_option wire) (get_member (ts ! j) ''facialExpression'')
            \<and> get_member (map wire us ! j) ''animation''
                = map_sum id (map_option wire) (get_member (ts ! j) ''animation'')"
      by (intro allI impI conjI f) simp_all
    with o len show ?thesis by (intro exI [of _ "map wire us"] conjI) simp_all
  qed
  from 1 2 3 show ?thesis by (intro conjI allI impI)
qed

theorem expression_forwarded_witness:
  "get_member hello_request ''message'' = Inr (Some (JStr ''hi''))
   \<and> chat_completion (studio (JArr two_turns)) (user_content (Some (JStr ''hi''))) = Inr ''reply''
   \<and> json_parse (studio (JArr two_turns)) ''reply'' = Inr (JArr two_turns)
   \<and> fst (chat (studio (JArr two_turns)) hello_request fresh)
       = fst (chat_loop (studio (JArr two_turns)) (JArr (map strip two_turns)) 0
               (after_completion (Some (JStr ''hi'')) fresh))
   \<and> snd (chat (studio (JArr two_turns)) hello_request fresh) = Inr (response (JArr two_enriched))
   \<and> (\<exists>ts'. response (JArr two_enriched) = JObj [(''messages'', JArr ts')]
         \<and> length ts' = length two_turns
         \<and> (\<forall>j<length two_turns.
               get_member (ts' ! j) ''facialExpression''
                 = map_sum id (map_option wire) (get_member (two_turns ! j) ''facialExpression'')
               \<and> get_member (ts' ! j) ''animation''
                   = map_sum id (map_option wire) (get_member (two_turns ! j) ''animation'')))"
proof -
  let ?env = "studio (JArr two_turns)"
  have 1: "get_member hello_request ''message'' = Inr (Some (JStr ''hi''))"
    by (simp add: hello_request_def)
  have 2: "chat_completion ?env (user_content (Some (JStr ''hi''))) = Inr ''reply''"
    by (simp add: studio_def)
  have 3: "json_parse ?env ''reply'' = Inr (JArr two_turns)"
    by (simp add: studio_def)
  have 4: "JArr two_turns = JArr two_turns
           \<or> (\<exists>kvs. JArr two_turns = JObj kvs \<and> map_of kvs ''messages'' = Some (JArr two_turns))"
    by simp
  note t = expression_forwarded [OF 1 2 3 4, of fresh]
  from t have 5: "fst (chat ?env hello_request fresh)
       = fst (chat_loop ?env (JArr (map strip two_turns)) 0
               (after_completion (Some (JStr ''hi'')) fresh))"
    by (rule conjunct1)
  from t two_chat have 6: "\<exists>ts'. response (JArr two_enriched) = JObj [(''messages'', JArr ts')]
         \<and> length ts' = length two_turns
         \<and> (\<forall>j<length two_turns.
               get_member (ts' ! j) ''facialExpression''
                 = map_sum id (map_option wire) (get_member (two_turns ! j) ''facialExpression'')
               \<and> get_member (ts' ! j) ''animation''
                   = map_sum id (map_option wire) (get_member (two_turns ! j) ''animation''))"
    by blast
  from 1 2 3 5 two_chat 6 show ?thesis by (intro conjI)
qed

text \<open>
  A turn with \<^verbatim>\<open>wink\<close> and \<^verbatim>\<open>Moonwalk\<close> reaches the caller with both values, and a turn
  without expression and animation reaches the caller without them.
\<close>

theorem unrecognized_forwarded:
  "snd (chat (studio (JArr two_turns)) hello_request fresh)
     = Inr (JObj [(''messages'', JArr two_enriched)])
   \<and> get_member (two_enriched ! 0) ''facialExpression'' = Inr (Some (JStr ''wink''))
   \<and> ''wink'' \<notin> set facial_expressions
   \<and> get_member (two_enriched ! 0) ''animation'' = Inr (Some (JStr ''Moonwalk''))
   \<and> ''Moonwalk'' \<notin> set animations
   \<and> get_member (two_turns ! 1) ''facialExpression'' = Inr None
   \<and> get_member (two_enriched ! 1) ''facialExpression'' = Inr None
   \<and> get_member (two_turns ! 1) ''animation'' = Inr None
   \<and> get_member (two_enriched ! 1) ''animation'' = Inr None"
  using two_chat
  by (simp add: response_def two_turns_def two_enriched_def enriched_turn_def
      facial_expressions_def animations_def)






text \<open>
  C5. The normalizer keeps the list: a reply that parses to a list, bare or under the field
  \<^verbatim>\<open>messages\<close>, becomes that very list, the same elements in the same order; no cap is
  applied.
\<close>

theorem normalizer_keeps_list:
  assumes "json_parse env content = Inr parsed"
    and "parsed = JArr ts \<or> (\<exists>kvs. parsed = JObj kvs \<and> map_of kvs ''messages'' = Some (JArr ts))"
  shows "turn_normalizer env content = Inr (JArr ts)"
  using assms(1) unwrap_list [OF assms(2)] by (simp add: turn_normalizer_def)

theorem normalizer_keeps_list_witness:
  "json_parse (studio (JObj [(''messages'', JArr five_turns)])) ''reply''
     = Inr (JObj [(''messages'', JArr five_turns)])
   \<and> json_parse (studio (JArr two_turns)) ''reply'' = Inr (JArr two_turns)
   \<and> turn_normalizer (studio (JObj [(''messages'', JArr five_turns)])) ''reply''
       = Inr (JArr five_turns)
   \<and> turn_normalizer (studio (JArr two_turns)) ''reply'' = Inr (JArr two_turns)"
proof -
  have 1: "json_parse (studio (JObj [(''messages'', JArr five_turns)])) ''reply''
             = Inr (JObj [(''messages'', JArr five_turns)])"
    by (simp add: studio_def)
  have 2: "JObj [(''messages'', JArr five_turns)] = JArr five_turns
           \<or> (\<exists>kvs. JObj [(''messages'', JArr five_turns)] = JObj kvs
                 \<and> map_of kvs ''messages'' = Some (JArr five_turns))"
    by simp
  have 3: "json_parse (studio (JArr two_turns)) ''reply'' = Inr (JArr two_turns)"
    by (simp add: studio_def)
  have 4: "JArr two_turns = JArr two_turns
           \<or> (\<exists>kvs. JArr two_turns = JObj kvs \<and> map_of kvs ''messages'' = Some (JArr two_turns))"
    by simp
  from normalizer_keeps_list [OF 1 2] normalizer_keeps_list [OF 3 4] 1 3 show ?thesis
    by blast
qed

text \<open>
  C6, as amended. There is no error for an unrecognized shape. A reply that parses to null
  ends the request with a \<^verbatim>\<open>TypeError\<close>. A reply that, once a truthy \<^verbatim>\<open>messages\<close> field is
  unwrapped, is a boolean, a number or an object without a \<^verbatim>\<open>length\<close> field is not
  rejected: no enrichment call is made and the value is sent back as \<^verbatim>\<open>messages\<close> of the
  response, as the serialisation of the response writes it (a number that is not finite,
  such as the value of \<^verbatim>\<open>1e400\<close>, as \<^verbatim>\<open>null\<close>).
\<close>

theorem shapeless_reply_forwarded:
  assumes "get_member body ''message'' = Inr userMessage"
    and "chat_completion env (user_content userMessage) = Inr content"
    and "json_parse env content = Inr parsed"
  shows "(parsed = JNull \<longrightarrow>
            chat env body st = (after_completion userMessage st, Inl TypeError))
         \<and> (\<forall>m. unwrap parsed = Inr m \<and> shapeless m \<longrightarrow>
              chat env body st
                = (after_completion userMessage st, Inr (JObj [(''messages'', wire m)])))"
proof -
  let ?after = "after_completion userMessage st"
  note c = chat_after_completion [OF assms(1,2), of st]
  have n: "turn_normalizer env content = unwrap parsed"
    using assms(3) by (simp add: turn_normalizer_def)
  have null: "chat env body st = (?after, Inl TypeError)" if "parsed = JNull"
  proof -
    from that n have "turn_normalizer env content = Inl TypeError" by (simp add: unwrap_def)
    with c show ?thesis by (simp add: and_then_lift_Inl lift_def)
  qed
  have other: "chat env body st = (?after, Inr (JObj [(''messages'', wire m)]))"
    if u: "unwrap parsed = Inr m" and s: "shapeless m" for m
  proof -
    from u n have "turn_normalizer env content = Inr m" by simp
    with c have "chat env body st
        = and_then (chat_loop env m 0) (\<lambda>messages'. resolved (response messages')) ?after"
      by (simp add: and_then_lift_Inr)
    also have "\<dots> = resolved (response m) ?after"
      using and_then_step(1)
        [where m = "chat_loop env m 0" and st = ?after
           and f = "\<lambda>messages'. resolved (response messages')", OF shapeless_loop [OF s]]
      by simp
    finally show ?thesis by (simp add: resolved_def response_def)
  qed
  from null other show ?thesis by blast
qed

theorem shapeless_reply_forwarded_witness:
  "get_member hello_request ''message'' = Inr (Some (JStr ''hi''))
   \<and> chat_completion (studio (JObj [(''text'', JStr ''hi'')])) (user_content (Some (JStr ''hi'')))
       = Inr ''reply''
   \<and> json_parse (studio (JObj [(''text'', JStr ''hi'')])) ''reply'' = Inr (JObj [(''text'', JStr ''hi'')])
   \<and> unwrap (JObj [(''text'', JStr ''hi'')]) = Inr (JObj [(''text'', JStr ''hi'')])
   \<and> shapeless (JObj [(''text'', JStr ''hi'')])
   \<and> chat (studio (JObj [(''text'', JStr ''hi'')])) hello_request fresh
       = (after_completion (Some (JStr ''hi'')) fresh,
          Inr (JObj [(''messages'', JObj [(''text'', JStr ''hi'')])]))
   \<and> chat_completion (studio JNull) (user_content (Some (JStr ''hi''))) = Inr ''reply''
   \<and> json_parse (studio JNull) ''reply'' = Inr JNull
   \<and> chat (studio JNull) hello_request fresh
       = (after_completion (Some (JStr ''hi'')) fresh, Inl TypeError)
   \<and> chat_completion (studio (JNum PosInf)) (user_content (Some (JStr ''hi''))) = Inr ''reply''
   \<and> json_parse (studio (JNum PosInf)) ''reply'' = Inr (JNum PosInf)
   \<and> unwrap (JNum PosInf) = Inr (JNum PosInf)
   \<and> shapeless (JNum PosInf)
   \<and> chat (studio (JNum PosInf)) hello_request fresh
       = (after_completion (Some (JStr ''hi'')) fresh, Inr (JObj [(''messages'', JNull)]))"
proof -
  let ?env = "studio (JObj [(''text'', JStr ''hi'')])"
  have 1: "get_member hello_request ''message'' = Inr (Some (JStr ''hi''))"
    by (simp add: hello_request_def)
  have 2: "chat_completion ?env (user_content (Some (JStr ''hi''))) = Inr ''reply''"
    by (simp add: studio_def)
  have 3: "json_parse ?env ''reply'' = Inr (JObj [(''text'', JStr ''hi'')])"
    by (simp add: studio_def)
  have 4: "unwrap (JObj [(''text'', JStr ''hi'')]) = Inr (JObj [(''text'', JStr ''hi'')])"
    by (simp add: unwrap_def)
  have 5: "shapeless (JObj [(''text'', JStr ''hi'')])"
    by simp
  have 6: "chat_completion (studio JNull) (user_content (Some (JStr ''hi''))) = Inr ''reply''"
    by (simp add: studio_def)
  have 7: "json_parse (studio JNull) ''reply'' = Inr JNull"
    by (simp add: studio_def)
  from shapeless_reply_forwarded [OF 1 2 3, of fresh] 4 5
  have 8: "chat ?env hello_request fresh
             = (after_completion (Some (JStr ''hi'')) fresh,
                Inr (JObj [(''messages'', wire (JObj [(''text'', JStr ''hi'')]))]))"
    by blast
  from shapeless_reply_forwarded [OF 1 6 7, of fresh]
  have 9: "chat (studio JNull) hello_request fresh
             = (after_completion (Some (JStr ''hi'')) fresh, Inl TypeError)"
    by blast
  have 10: "chat_completion (studio (JNum PosInf)) (user_content (Some (JStr ''hi''))) = Inr ''reply''"
    by (simp add: studio_def)
  have 11: "json_parse (studio (JNum PosInf)) ''reply'' = Inr (JNum PosInf)"
    by (simp add: studio_def)
  have 12: "unwrap (JNum PosInf) = Inr (JNum PosInf)"
    by (simp add: unwrap_def)
  have 13: "shapeless (JNum PosInf)"
    by simp
  from shapeless_reply_forwarded [OF 1 10 11, of fresh] 12 13
  have 14: "chat (studio (JNum PosInf)) hello_request fresh
             = (after_completion (Some (JStr ''hi'')) fresh,
                Inr (JObj [(''messages'', wire (JNum PosInf))]))"
    by blast
  from 1 2 3 4 5 8 6 7 9 10 11 12 13 14 show ?thesis by simp
qed

text \<open>
  The reply \<^verbatim>\<open>{"text": "hi"}\<close> is neither a list nor a wrapper of one; the caller
  receives it under \<^verbatim>\<open>messages\<close>.
\<close>

theorem unrecognized_shape_forwarded:
  "snd (chat (studio (JObj [(''text'', JStr ''hi'')])) hello_request fresh)
     = Inr (JObj [(''messages'', JObj [(''text'', JStr ''hi'')])])"
  using object_chat by (simp add: response_def)

text \<open>
  C7, as amended. The body of the response is an object with the single field
  \<^verbatim>\<open>messages\<close>, and this field holds what the loop returned, as the serialisation of the
  response writes it: the same turns in the same order, nothing added or removed, a number
  that is not finite written \<^verbatim>\<open>null\<close>. There is no field \<^verbatim>\<open>turns\<close>.
\<close>

theorem response_is_messages:
  assumes "chat env body st = (st', Inr out)"
  shows "\<exists>userMessage content messages messages'.
           get_member body ''message'' = Inr userMessage
           \<and> chat_completion env (user_content userMessage) = Inr content
           \<and> turn_normalizer env content = Inr messages
           \<and> chat_loop env messages 0 (after_completion userMessage st) = (st', Inr messages')
           \<and> out = JObj [(''messages'', wire messages')]"
  using chat_Inr [OF assms] by (simp add: response_def)

theorem response_is_messages_witness:
  "chat (studio (JArr two_turns)) hello_request fresh
     = (fst (chat (studio (JArr two_turns)) hello_request fresh), Inr (response (JArr two_enriched)))
   \<and> (\<exists>userMessage content messages messages'.
         get_member hello_request ''message'' = Inr userMessage
         \<and> chat_completion (studio (JArr two_turns)) (user_content userMessage) = Inr content
         \<and> turn_normalizer (studio (JArr two_turns)) content = Inr messages
         \<and> chat_loop (studio (JArr two_turns)) messages 0 (after_completion userMessage fresh)
             = (fst (chat (studio (JArr two_turns)) hello_request fresh), Inr messages')
         \<and> response (JArr two_enriched) = JObj [(''messages'', wire messages')])"
proof -
  have 1: "chat (studio (JArr two_turns)) hello_request fresh
             = (fst (chat (studio (JArr two_turns)) hello_request fresh),
                Inr (response (JArr two_enriched)))"
    by (rule run_pair) (rule two_chat)
  show ?thesis by (rule conjI [OF 1 response_is_messages [OF 1]])
qed

text \<open>
  A response read under \<^verbatim>\<open>turns\<close> is \<^verbatim>\<open>undefined\<close>; the turns are under \<^verbatim>\<open>messages\<close>.
\<close>

theorem payload_field_is_messages:
  "snd (chat (studio (JArr two_turns)) hello_request fresh)
     = Inr (JObj [(''messages'', JArr two_enriched)])
   \<and> get_member (JObj [(''messages'', JArr two_enriched)]) ''turns'' = Inr None
   \<and> get_member (JObj [(''messages'', JArr two_enriched)]) ''messages''
       = Inr (Some (JArr two_enriched))"
  using two_chat by (simp add: response_def two_enriched_def enriched_turn_def)

text \<open>
  C8. Round trip of the transport encoding: whenever the artifact is on disk,
  \<^verbatim>\<open>audioFileToBase64\<close> resolves with a string whose base64 decoding is, byte for byte, the
  content of the file; the files are left as they were.
\<close>

theorem audio_roundtrip:
  assumes "files st file = Some data"
  shows "\<exists>encoded. audioFileToBase64 file st = (st, Inr encoded)
           \<and> base64_decode encoded = Some data"
  using assms
  by (simp add: audioFileToBase64_def readFile_def and_then_def resolved_def base64_roundtrip)

theorem audio_roundtrip_witness:
  "files \<lparr>files = disk_example, calls = []\<rparr> ''audios/message_0.mp3'' = Some [73, 68, 51, 4]
   \<and> (\<exists>encoded. audioFileToBase64 ''audios/message_0.mp3'' \<lparr>files = disk_example, calls = []\<rparr>
          = (\<lparr>files = disk_example, calls = []\<rparr>, Inr encoded)
        \<and> base64_decode encoded = Some [73, 68, 51, 4])"
proof -
  have h: "files \<lparr>files = disk_example, calls = []\<rparr> ''audios/message_0.mp3'' = Some [73, 68, 51, 4]"
    by (simp add: disk_example_def)
  from audio_roundtrip [OF h] h show ?thesis by simp
qed



text \<open>
  C10. Enrichment is a frame around each turn: when the loop succeeds over a batch, the
  result is a batch of the same length in which the turn at each place has every property
  other than \<^verbatim>\<open>audio\<close> and \<^verbatim>\<open>lipsync\<close> (so \<^verbatim>\<open>text\<close>, \<^verbatim>\<open>facialExpression\<close> and
  \<^verbatim>\<open>animation\<close>) as before, and a turn object has its \<^verbatim>\<open>audio\<close> and \<^verbatim>\<open>lipsync\<close> set.
\<close>

theorem enrichment_frame:
  assumes "chat_loop env (JArr ts) 0 st = (st', Inr out)"
  shows "\<exists>ts'. out = JArr ts' \<and> length ts' = length ts
           \<and> (\<forall>j<length ts.
                 (\<forall>k. k \<noteq> ''audio'' \<longrightarrow> k \<noteq> ''lipsync'' \<longrightarrow>
                    get_member (ts' ! j) k = get_member (ts ! j) k)
                 \<and> (\<forall>kvs. ts ! j = JObj kvs \<longrightarrow>
                      (\<exists>kvs' audio lipsync. ts' ! j = JObj kvs'
                         \<and> map_of kvs' ''audio'' = Some (JStr audio)
                         \<and> map_of kvs' ''lipsync'' = Some lipsync)))"
proof -
  from chat_loop_JArr_Inr [OF assms] obtain ts'
    where o: "out = JArr ts'" and e: "list_all2 enriched ts ts'"
    by blast
  from e have l: "length ts' = length ts" by (simp add: list_all2_lengthD)
  have f: "get_member (ts' ! j) k = get_member (ts ! j) k"
    if "j < length ts" "k \<noteq> ''audio''" "k \<noteq> ''lipsync''" for j k
    using list_all2_enriched_frame [OF e that] .
  have p: "\<exists>kvs' audio lipsync. ts' ! j = JObj kvs'
             \<and> map_of kvs' ''audio'' = Some (JStr audio) \<and> map_of kvs' ''lipsync'' = Some lipsync"
    if "j < length ts" "ts ! j = JObj kvs" for j kvs
  proof -
    from e that(1) have "enriched (ts ! j) (ts' ! j)" by (rule list_all2_nthD)
    with that(2) have "enriched (JObj kvs) (ts' ! j)" by simp
    then show ?thesis by (rule enriched_object)
  qed
  have "\<forall>j<length ts.
          (\<forall>k. k \<noteq> ''audio'' \<longrightarrow> k \<noteq> ''lipsync'' \<longrightarrow>
             get_member (ts' ! j) k = get_member (ts ! j) k)
          \<and> (\<forall>kvs. ts ! j = JObj kvs \<longrightarrow>
               (\<exists>kvs' audio lipsync. ts' ! j = JObj kvs'
                  \<and> map_of kvs' ''audio'' = Some (JStr audio)
                  \<and> map_of kvs' ''lipsync'' = Some lipsync))"
  proof (intro allI impI conjI)
    fix j k
    assume "j < length ts" "k \<noteq> ''audio''" "k \<noteq> ''lipsync''"
    then show "get_member (ts' ! j) k = get_member (ts ! j) k" by (rule f)
  next
    fix j kvs
    assume "j < length ts" "ts ! j = JObj kvs"
    then show "\<exists>kvs' audio lipsync. ts' ! j = JObj kvs'
        \<and> map_of kvs' ''audio'' = Some (JStr audio) \<and> map_of kvs' ''lipsync'' = Some lipsync"
      by (rule p)
  qed
  with o l show ?thesis by (intro exI [of _ ts'] conjI)
qed

theorem enrichment_frame_witness:
  "chat_loop (studio JNull) (JArr two_turns) 0 fresh
     = (fst (chat_loop (studio JNull) (JArr two_turns) 0 fresh), Inr (JArr two_enriched))
   \<and> (\<exists>ts'. JArr two_enriched = JArr ts' \<and> length ts' = length two_turns
         \<and> (\<forall>j<length two_turns.
               (\<forall>k. k \<noteq> ''audio'' \<longrightarrow> k \<noteq> ''lipsync'' \<longrightarrow>
                  get_member (ts' ! j) k = get_member (two_turns ! j) k)
               \<and> (\<forall>kvs. two_turns ! j = JObj kvs \<longrightarrow>
                    (\<exists>kvs' audio lipsync. ts' ! j = JObj kvs'
                       \<and> map_of kvs' ''audio'' = Some (JStr audio)
                       \<and> map_of kvs' ''lipsync'' = Some lipsync))))"
proof -
  have 1: "chat_loop (studio JNull) (JArr two_turns) 0 fresh
             = (fst (chat_loop (studio JNull) (JArr two_turns) 0 fresh), Inr (JArr two_enriched))"
    by (rule run_pair) (rule two_loop)
  show ?thesis by (rule conjI [OF 1 enrichment_frame [OF 1]])
qed

end
